theory Spec2Isabelle
  imports Main
begin

section \<open>Python strings\<close>

text \<open>
  A Python \<open>str\<close> is modelled as a \<open>string\<close>: a list of characters with code points
  below 256. In that range the regular expression class \<open>\d\<close> matches exactly the ten
  ASCII digits, and \<open>str.isspace\<close> holds for the code points 9 to 13, 28 to 32, 133
  and 160.
\<close>

fun startswith :: "string \<Rightarrow> string \<Rightarrow> bool" where
  "startswith s [] = True"
| "startswith [] (p # ps) = False"
| "startswith (c # cs) (p # ps) = (c = p \<and> startswith cs ps)"

definition endswith :: "string \<Rightarrow> string \<Rightarrow> bool" where
  "endswith s suf = startswith (rev s) (rev suf)"

text \<open>\<open>sub in s\<close>: the substring test of Python.\<close>

fun contains :: "string \<Rightarrow> string \<Rightarrow> bool" where
  "contains sub [] = startswith [] sub"
| "contains sub (c # cs) = (startswith (c # cs) sub \<or> contains sub cs)"

text \<open>\<open>s.count(c)\<close> for a pattern \<open>c\<close> of one character.\<close>

definition count_char :: "char \<Rightarrow> string \<Rightarrow> nat" where
  "count_char c s = length (filter (\<lambda>x. x = c) s)"

text \<open>\<open>s.replace(old, new)\<close> for \<open>old\<close> and \<open>new\<close> of one character each.\<close>

definition replace_char :: "char \<Rightarrow> char \<Rightarrow> string \<Rightarrow> string" where
  "replace_char old new s = map (\<lambda>x. if x = old then new else x) s"

definition is_digit :: "char \<Rightarrow> bool" where
  "is_digit c = (c \<in> set ''0123456789'')"

definition isspace :: "char \<Rightarrow> bool" where
  "isspace c = (c \<in> set [CHR 0x09, CHR 0x0A, CHR 0x0B, CHR 0x0C, CHR 0x0D, CHR 0x1C,
                          CHR 0x1D, CHR 0x1E, CHR 0x1F, CHR 0x20, CHR 0x85, CHR 0xA0])"

definition strip :: "string \<Rightarrow> string" where
  "strip s = rev (dropWhile isspace (rev (dropWhile isspace s)))"

text \<open>\<open>str(n)\<close> for a natural number: its decimal digits.\<close>

fun str_nat :: "nat \<Rightarrow> string" where
  "str_nat n = (if n < 10 then [''0123456789'' ! n]
                else str_nat (n div 10) @ [''0123456789'' ! (n mod 10)])"

declare str_nat.simps [simp del]

section \<open>Errors\<close>

text \<open>
  Every exception the modelled code can raise is a value. \<open>AssertionError\<close> carries the
  message of the failed \<open>assert\<close>, \<open>KeyError\<close> the missing key, \<open>SystemExit\<close> the exit
  status and \<open>CalledProcessError\<close> the captured output of the failed process, as bytes.
  \<open>Unsupported\<close> is no Python exception: it marks an input outside the fragment modelled
  below, a format string that uses a further feature of \<open>str.format\<close> or a process output
  that decodes to code points beyond 255.
\<close>

datatype error =
    AssertionError string
  | TypeError
  | IndexError
  | KeyError string
  | ValueError
  | UnboundLocalError
  | FileNotFoundError
  | SameFileError
  | EOFError
  | UnicodeDecodeError
  | SystemExit nat
  | CalledProcessError string
  | Unsupported

section \<open>Release names (\<open>utils.py\<close>)\<close>

definition short :: "string \<Rightarrow> string" where
  "short rel_name =
     (if endswith rel_name ''.0'' then take (length rel_name - 2) rel_name else rel_name)"

text \<open>
  \<open>re.search(tag + '\d+', release_name)\<close>, for a tag without regular expression
  metacharacters: \<open>match_here\<close> says that the pattern matches at the start of the string
  (the tag, then at least one digit), and \<open>re_search\<close> gives the start of the leftmost
  match.
\<close>

definition match_here :: "string \<Rightarrow> string \<Rightarrow> bool" where
  "match_here tag s =
     (startswith s tag \<and> (case drop (length tag) s of [] \<Rightarrow> False | d # _ \<Rightarrow> is_digit d))"

fun re_search :: "string \<Rightarrow> string \<Rightarrow> nat option" where
  "re_search tag [] = (if match_here tag [] then Some 0 else None)"
| "re_search tag (c # cs) =
     (if match_here tag (c # cs) then Some 0 else map_option Suc (re_search tag cs))"

definition pretag_tags :: "string list" where
  "pretag_tags = [''rc'', ''c'', ''beta'', ''b'', ''alpha'', ''a'']"

text \<open>The \<open>for tag in (...)\<close> loop of \<open>pretag_pos\<close>: the first tag that matches returns.\<close>

fun pretag_loop :: "string list \<Rightarrow> string \<Rightarrow> nat option" where
  "pretag_loop [] release_name = None"
| "pretag_loop (tag # tags) release_name =
     (case re_search tag release_name of
        Some pos \<Rightarrow> Some pos
      | None \<Rightarrow> pretag_loop tags release_name)"

definition pretag_pos :: "string \<Rightarrow> nat option" where
  "pretag_pos release_name = pretag_loop pretag_tags release_name"

definition strip_pretags :: "string \<Rightarrow> string" where
  "strip_pretags release_name =
     (case pretag_pos release_name of
        Some pos \<Rightarrow> take pos release_name
      | None \<Rightarrow> release_name)"

definition isprerelease :: "string \<Rightarrow> bool" where
  "isprerelease release_name = (pretag_pos release_name \<noteq> None)"

definition long_release_name :: "string \<Rightarrow> error + string" where
  "long_release_name release_name =
     (let dotcount = count_char CHR ''.'' release_name in
      if 2 \<le> dotcount then Inr release_name
      else if dotcount \<noteq> 1 then
        Inl (AssertionError (release_name @ '' contains '' @ str_nat dotcount @ '' dots''))
      else
        (case pretag_pos release_name of
           Some pos \<Rightarrow> Inr (take pos release_name @ ''.0'' @ drop pos release_name)
         | None \<Rightarrow> Inr (release_name @ ''.0'')))"

definition relname2fname :: "string \<Rightarrow> string" where
  "relname2fname release_name =
     (let short_version = short (strip_pretags release_name) in
      ''version_'' @ replace_char CHR ''.'' CHR ''_'' short_version @ ''.rst.inc'')"

text \<open>
  Two notions in the words of the specification, to compare \<open>pretag_pos\<close> with:
  \<open>occurs_at tag name i\<close> says that the pattern of \<open>tag\<close> (the tag, then digits) occurs in
  \<open>name\<close> at index \<open>i\<close>, and \<open>leftmost_pretag\<close> is the start index of the leftmost occurrence
  of the pattern of any tag.
\<close>

definition occurs_at :: "string \<Rightarrow> string \<Rightarrow> nat \<Rightarrow> bool" where
  "occurs_at tag name i = match_here tag (drop i name)"

fun leftmost_pretag :: "string \<Rightarrow> nat option" where
  "leftmost_pretag [] =
     (if list_ex (\<lambda>tag. match_here tag []) pretag_tags then Some 0 else None)"
| "leftmost_pretag (c # cs) =
     (if list_ex (\<lambda>tag. match_here tag (c # cs)) pretag_tags then Some 0
      else map_option Suc (leftmost_pretag cs))"

section \<open>Lines of text\<close>

text \<open>
  A file opened in text mode is read with universal newlines: a carriage return followed
  by a newline, and a carriage return alone, both reach the program as one newline.
\<close>

fun universal_newlines :: "string \<Rightarrow> string" where
  "universal_newlines [] = []"
| "universal_newlines [c] = (if c = CHR 0x0D then [CHR 0x0A] else [c])"
| "universal_newlines (c # d # ds) =
     (if c = CHR 0x0D \<and> d = CHR 0x0A then CHR 0x0A # universal_newlines ds
      else if c = CHR 0x0D then CHR 0x0A # universal_newlines (d # ds)
      else c # universal_newlines (d # ds))"

text \<open>
  The lines of a text: it is cut after every newline, and each line keeps its newline (the
  last line has none when the text does not end with one).
\<close>

fun cut_lines :: "string \<Rightarrow> string list" where
  "cut_lines [] = []"
| "cut_lines (c # cs) =
     (if c = CHR ''\<newline>'' then [c] # cut_lines cs
      else (case cut_lines cs of [] \<Rightarrow> [[c]] | l # ls \<Rightarrow> (c # l) # ls))"

text \<open>
  \<open>f.readlines()\<close> on a file opened in text mode, as a function of the text stored in the
  file: the line endings are translated, then the text is cut into lines.
\<close>

definition readlines :: "string \<Rightarrow> string list" where
  "readlines stored = cut_lines (universal_newlines stored)"

text \<open>
  A complete line is a text without carriage return that ends with its only newline.
  \<open>is_lines\<close> is the shape of the lists that \<open>readlines\<close> returns: complete lines, of which
  the last may lack its newline.
\<close>

definition complete_line :: "string \<Rightarrow> bool" where
  "complete_line l =
     (l \<noteq> [] \<and> last l = CHR 0x0A \<and> CHR 0x0A \<notin> set (butlast l) \<and> CHR 0x0D \<notin> set l)"

fun is_lines :: "string list \<Rightarrow> bool" where
  "is_lines [] = True"
| "is_lines [l] = (l \<noteq> [] \<and> CHR 0x0A \<notin> set (butlast l) \<and> CHR 0x0D \<notin> set l)"
| "is_lines (l # m # ls) = (complete_line l \<and> is_lines (m # ls))"

text \<open>
  \<open>s.splitlines(keepends)\<close>: besides the newline, a carriage return (alone or followed by
  a newline) and the code points 11, 12, 28, 29, 30 and 133 end a line.
\<close>

definition is_linebreak :: "char \<Rightarrow> bool" where
  "is_linebreak c = (c \<in> set [CHR 0x0A, CHR 0x0B, CHR 0x0C, CHR 0x0D, CHR 0x1C, CHR 0x1D,
                               CHR 0x1E, CHR 0x85])"

fun splitlines :: "bool \<Rightarrow> string \<Rightarrow> string list" where
  "splitlines keepends [] = []"
| "splitlines keepends (c # cs) =
     (if c = CHR 0x0D \<and> (case cs of [] \<Rightarrow> False | d # _ \<Rightarrow> d = CHR 0x0A) then
        (if keepends then [c, CHR 0x0A] else []) # splitlines keepends (tl cs)
      else if is_linebreak c then
        (if keepends then [c] else []) # splitlines keepends cs
      else (case splitlines keepends cs of [] \<Rightarrow> [[c]] | l # ls \<Rightarrow> (c # l) # ls))"

text \<open>\<open>sep.join(xs)\<close> for a list of strings.\<close>

fun join_lines :: "string \<Rightarrow> string list \<Rightarrow> string" where
  "join_lines sep [] = []"
| "join_lines sep [x] = x"
| "join_lines sep (x # y # ys) = x @ sep @ join_lines sep (y # ys)"

section \<open>Format strings\<close>

text \<open>
  \<open>template.format(**kwargs)\<close> with keyword arguments that are strings. The fragment
  modelled is literal text, the escapes \<open>{{\<close> and \<open>}}\<close>, and replacement fields that
  hold a plain name: a name that is no keyword raises \<open>KeyError\<close>, an empty name or a
  decimal number asks for a positional argument and raises \<open>IndexError\<close>, a brace that is
  neither doubled nor part of a field raises \<open>ValueError\<close>. A field with a conversion, a
  format specification, an attribute or an index gives \<open>Unsupported\<close>. The string is read
  from left to right, so the first error met is the one raised. In \<open>format_scan\<close> the
  second argument is the name of the field being read, \<open>None\<close> outside a field.

  \<open>get_integer\<close> reads a field name as a decimal number, digit by digit: at the first
  character that is no digit the name is no number (\<open>None\<close>), and as soon as the digits
  read exceed the largest index, \<open>PY_SSIZE_T_MAX\<close> (its value on a 64 bit build), it
  raises \<open>ValueError\<close>.
\<close>

definition PY_SSIZE_T_MAX :: int where
  "PY_SSIZE_T_MAX = 9223372036854775807"

fun get_integer :: "int \<Rightarrow> string \<Rightarrow> error + int option" where
  "get_integer accumulator [] = Inr (Some accumulator)"
| "get_integer accumulator (c # cs) =
     (if \<not> is_digit c then Inr None
      else
        (let digitval = (of_char c :: int) - 48 in
         if accumulator > (PY_SSIZE_T_MAX - digitval) div 10 then Inl ValueError
         else get_integer (accumulator * 10 + digitval) cs))"

definition field_value :: "(string \<times> string) list \<Rightarrow> string \<Rightarrow> error + string" where
  "field_value kwargs name =
     (if list_ex (\<lambda>c. c \<in> set ''!:.['') name then Inl Unsupported
      else if CHR ''{'' \<in> set name then Inl ValueError
      else if name = [] then Inl IndexError
      else
        (case get_integer 0 name of
           Inl e \<Rightarrow> Inl e
         | Inr (Some index) \<Rightarrow> Inl IndexError
         | Inr None \<Rightarrow>
             (case map_of kwargs name of None \<Rightarrow> Inl (KeyError name) | Some v \<Rightarrow> Inr v)))"

fun format_scan :: "(string \<times> string) list \<Rightarrow> string option \<Rightarrow> string \<Rightarrow> error + string" where
  "format_scan kwargs None [] = Inr []"
| "format_scan kwargs (Some name) [] = Inl ValueError"
| "format_scan kwargs None (c # cs) =
     (if c = CHR ''{'' then
        (case cs of
           [] \<Rightarrow> Inl ValueError
         | d # ds \<Rightarrow>
             if d = CHR ''{'' then
               (case format_scan kwargs None ds of Inl e \<Rightarrow> Inl e | Inr r \<Rightarrow> Inr (c # r))
             else format_scan kwargs (Some []) cs)
      else if c = CHR ''}'' then
        (case cs of
           [] \<Rightarrow> Inl ValueError
         | d # ds \<Rightarrow>
             if d = CHR ''}'' then
               (case format_scan kwargs None ds of Inl e \<Rightarrow> Inl e | Inr r \<Rightarrow> Inr (c # r))
             else Inl ValueError)
      else (case format_scan kwargs None cs of Inl e \<Rightarrow> Inl e | Inr r \<Rightarrow> Inr (c # r)))"
| "format_scan kwargs (Some name) (c # cs) =
     (if c = CHR ''}'' then
        (case field_value kwargs name of
           Inl e \<Rightarrow> Inl e
         | Inr v \<Rightarrow>
             (case format_scan kwargs None cs of Inl e \<Rightarrow> Inl e | Inr r \<Rightarrow> Inr (v @ r)))
      else format_scan kwargs (Some (name @ [c])) cs)"

definition str_format :: "string \<Rightarrow> (string \<times> string) list \<Rightarrow> error + string" where
  "str_format template kwargs = format_scan kwargs None template"

section \<open>Files, the console and processes\<close>

text \<open>
  The state the code acts on, on a POSIX system: \<open>os.path\<close> is \<open>posixpath\<close> and
  \<open>os.linesep\<close> is a newline. \<open>files\<close> maps the path of a file to the text stored in
  it, the characters the file holds before any translation of line endings; decoding and
  the byte order mark lie below this model. Reading in text mode translates the line
  endings (\<open>universal_newlines\<close>); writing in text mode stores the text as it is given,
  since a newline is written as \<open>os.linesep\<close>. A relative path is resolved against
  \<open>cwd\<close> by \<open>join\<close>; paths are compared as strings, \<open>.\<close> and \<open>..\<close> are not
  normalised, and permissions and missing parent directories are not modelled. \<open>stdin\<close>
  holds the lines the operator will type, \<open>stdout\<close> the text printed so far, and
  \<open>subprocess\<close> is what \<open>subprocess.check_output\<close> gives for its positional arguments:
  the bytes the process wrote, or the error raised.

  An operation on the state returns its value or the exception raised, and the state at
  that moment.
\<close>

datatype pyarg = PyStr string | PyList "string list"

record world =
  cwd :: string
  files :: "string \<rightharpoonup> string"
  stdin :: "string list"
  stdout :: string
  subprocess :: "pyarg list \<Rightarrow> error + string"

type_synonym 'a action = "world \<Rightarrow> (error + 'a) \<times> world"

definition then_do :: "'a action \<Rightarrow> ('a \<Rightarrow> 'b action) \<Rightarrow> 'b action" where
  "then_do m f w = (case m w of (Inl e, w1) \<Rightarrow> (Inl e, w1) | (Inr x, w1) \<Rightarrow> f x w1)"

definition lift :: "error + 'a \<Rightarrow> 'a action" where
  "lift r w = (r, w)"

text \<open>\<open>os.path.join\<close> on two components, as \<open>posixpath\<close> has it.\<close>

definition join :: "string \<Rightarrow> string \<Rightarrow> string" where
  "join a b =
     (if startswith b ''/'' then b
      else if a = [] \<or> endswith a ''/'' then a @ b
      else a @ ''/'' @ b)"

text \<open>
  What \<open>join\<close> puts before a second component that is relative: the first component,
  with a separator when it needs one.
\<close>

definition dir_prefix :: "string \<Rightarrow> string" where
  "dir_prefix a = (if a = [] \<or> endswith a ''/'' then a else a @ ''/'')"

text \<open>The first component may be \<open>None\<close>: \<open>os.path.join\<close> then raises \<open>TypeError\<close>.\<close>

definition join_opt :: "string option \<Rightarrow> string \<Rightarrow> error + string" where
  "join_opt a b = (case a of None \<Rightarrow> Inl TypeError | Some a' \<Rightarrow> Inr (join a' b))"

definition abspath :: "world \<Rightarrow> string \<Rightarrow> string" where
  "abspath w path = join (cwd w) path"

text \<open>
  \<open>open(path).read()\<close>, \<open>open(path).readlines()\<close> and
  \<open>open(path, 'w').write(text)\<close>, which \<open>writelines\<close> amounts to on the concatenation
  of its lines.
\<close>

definition read_text :: "string \<Rightarrow> string action" where
  "read_text path w =
     (case files w (abspath w path) of
        None \<Rightarrow> (Inl FileNotFoundError, w)
      | Some stored \<Rightarrow> (Inr (universal_newlines stored), w))"

definition read_lines :: "string \<Rightarrow> string list action" where
  "read_lines path w =
     (case files w (abspath w path) of
        None \<Rightarrow> (Inl FileNotFoundError, w)
      | Some stored \<Rightarrow> (Inr (readlines stored), w))"

definition write_text :: "string \<Rightarrow> string \<Rightarrow> unit action" where
  "write_text path content w = (Inr (), w\<lparr>files := (files w)(abspath w path \<mapsto> content)\<rparr>)"

text \<open>
  \<open>shutil.copy(src, dst)\<close> for a destination that is a file name: the stored text is
  copied as it is.
\<close>

definition copy :: "string \<Rightarrow> string \<Rightarrow> unit action" where
  "copy src dst w =
     (case files w (abspath w src) of
        None \<Rightarrow> (Inl FileNotFoundError, w)
      | Some content \<Rightarrow>
          if abspath w src = abspath w dst then (Inl SameFileError, w)
          else (Inr (), w\<lparr>files := (files w)(abspath w dst \<mapsto> content)\<rparr>))"

text \<open>
  Modelled from the spec: \<open>chdir\<close>, which \<open>next_release.py\<close> imports from \<open>utils.py\<close>, is
  missing from the sources. The specification says that the working directory is
  changed, for the whole process, before the file operations.
\<close>

definition chdir :: "string \<Rightarrow> unit action" where
  "chdir path w = (Inr (), w\<lparr>cwd := join (cwd w) path\<rparr>)"

text \<open>\<open>print(s)\<close>: the text and a newline go to the output.\<close>

definition print :: "string \<Rightarrow> unit action" where
  "print s w = (Inr (), w\<lparr>stdout := stdout w @ s @ ''\<newline>''\<rparr>)"

text \<open>\<open>c.lower()\<close> for a code point below 256.\<close>

definition lower_char :: "char \<Rightarrow> char" where
  "lower_char c =
     (let n = (of_char c :: nat) in
      if (65 \<le> n \<and> n \<le> 90) \<or> (192 \<le> n \<and> n \<le> 222 \<and> n \<noteq> 215) then char_of (n + 32) else c)"

section \<open>Generic tools (\<open>utils.py\<close>)\<close>

text \<open>
  The \<open>while\<close> loop of \<open>yes\<close>: \<open>answer\<close> is \<open>None\<close> before the first question.
  \<open>input(prompt)\<close> writes the prompt and takes the next line of the input, without its
  newline; at the end of the input it raises \<open>EOFError\<close>. The loop runs once for each
  line taken, so it is a recursion on \<open>stdin\<close>; it returns the answer, the input left and
  the output.
\<close>

fun yes_loop :: "string \<Rightarrow> string option \<Rightarrow> string list \<Rightarrow> string \<Rightarrow> (error + string) \<times> string list \<times> string" where
  "yes_loop prompt answer [] out =
     (case answer of
        None \<Rightarrow> (Inl EOFError, [], out @ prompt)
      | Some a \<Rightarrow>
          if a \<in> set ['''', ''y'', ''n''] then (Inr a, [], out)
          else (Inl EOFError, [],
                out @ ''answer should be 'y', 'n', or <return>\<newline>'' @ prompt))"
| "yes_loop prompt answer (l # ls) out =
     (case answer of
        None \<Rightarrow> yes_loop prompt (Some (map lower_char l)) ls (out @ prompt)
      | Some a \<Rightarrow>
          if a \<in> set ['''', ''y'', ''n''] then (Inr a, l # ls, out)
          else yes_loop prompt (Some (map lower_char l)) ls
                 (out @ ''answer should be 'y', 'n', or <return>\<newline>'' @ prompt))"

definition yes :: "string \<Rightarrow> string \<Rightarrow> bool action" where
  "yes msg dflt w =
     (let choices = '' ('' @ (if ''y'' = dflt then ''Y'' else ''y'') @ ''/'' @
                    (if ''n'' = dflt then ''N'' else ''n'') @ '') '' in
      case yes_loop (msg @ choices) None (stdin w) (stdout w) of
        (Inl e, inp, out) \<Rightarrow> (Inl e, w\<lparr>stdin := inp, stdout := out\<rparr>)
      | (Inr answer, inp, out) \<Rightarrow>
          (Inr ((if answer = '''' then dflt else answer) = ''y''),
           w\<lparr>stdin := inp, stdout := out\<rparr>))"

definition no :: "string \<Rightarrow> string \<Rightarrow> bool action" where
  "no msg dflt = then_do (yes msg dflt) (\<lambda>b. lift (Inr (\<not> b)))"

text \<open>\<open>sep.join(args)\<close> for arguments that may be lists instead of strings.\<close>

fun str_join :: "string \<Rightarrow> pyarg list \<Rightarrow> error + string" where
  "str_join sep [] = Inr []"
| "str_join sep (PyList l # rest) = Inl TypeError"
| "str_join sep [PyStr s] = Inr s"
| "str_join sep (PyStr s # a # rest) =
     (case str_join sep (a # rest) of Inl e \<Rightarrow> Inl e | Inr r \<Rightarrow> Inr (s @ sep @ r))"

text \<open>
  The output of a process is a byte string. \<open>print(e.output)\<close> prints its \<open>repr\<close>: the
  letter \<open>b\<close>, then the bytes between quotes, single ones unless the bytes hold a single
  quote and no double quote. The quote in use and the backslash are escaped with a
  backslash; tab, newline and carriage return are written as a backslash and the letter
  \<open>t\<close>, \<open>n\<close> or \<open>r\<close>; any other byte below 32 or from 127 on is written as a
  backslash, the letter \<open>x\<close> and two hexadecimal digits.
\<close>

definition hex_digit :: "nat \<Rightarrow> char" where
  "hex_digit n = ''0123456789abcdef'' ! (n mod 16)"

definition escape_byte :: "char \<Rightarrow> char \<Rightarrow> string" where
  "escape_byte quote c =
     (let n = (of_char c :: nat) in
      if c = quote \<or> c = CHR 0x5C then [CHR 0x5C, c]
      else if c = CHR 0x09 then [CHR 0x5C, CHR ''t'']
      else if c = CHR 0x0A then [CHR 0x5C, CHR ''n'']
      else if c = CHR 0x0D then [CHR 0x5C, CHR ''r'']
      else if n < 32 \<or> 127 \<le> n then [CHR 0x5C, CHR ''x'', hex_digit (n div 16), hex_digit n]
      else [c])"

definition bytes_repr :: "string \<Rightarrow> string" where
  "bytes_repr b =
     (let quote = (if CHR 0x27 \<in> set b \<and> CHR 0x22 \<notin> set b then CHR 0x22 else CHR 0x27)
      in CHR ''b'' # quote # concat (map (escape_byte quote) b) @ [quote])"

text \<open>
  \<open>res.decode('utf8')\<close>. \<open>utf8_head\<close> says that the bytes start with a well-formed
  sequence of two, three or four bytes. A byte below 128 is its own code point, and the
  sequences that start with the bytes 194 and 195 give the code points from 128 to 255;
  any other well-formed sequence gives a code point that a \<open>string\<close> here does not have
  (\<open>Unsupported\<close>), and bytes that are not well formed raise \<open>UnicodeDecodeError\<close>.
\<close>

definition is_cont :: "char \<Rightarrow> bool" where
  "is_cont c = (128 \<le> (of_char c :: nat) \<and> (of_char c :: nat) < 192)"

fun utf8_head :: "string \<Rightarrow> bool" where
  "utf8_head (a # b # rest) =
     (let n = (of_char a :: nat); m = (of_char b :: nat);
          one_more = (case rest of c # _ \<Rightarrow> is_cont c | [] \<Rightarrow> False);
          two_more = (case rest of c # d # _ \<Rightarrow> is_cont c \<and> is_cont d | _ \<Rightarrow> False)
      in (194 \<le> n \<and> n \<le> 223 \<and> is_cont b) \<or>
         (n = 224 \<and> 160 \<le> m \<and> m \<le> 191 \<and> one_more) \<or>
         (((225 \<le> n \<and> n \<le> 236) \<or> n = 238 \<or> n = 239) \<and> is_cont b \<and> one_more) \<or>
         (n = 237 \<and> 128 \<le> m \<and> m \<le> 159 \<and> one_more) \<or>
         (n = 240 \<and> 144 \<le> m \<and> m \<le> 191 \<and> two_more) \<or>
         (241 \<le> n \<and> n \<le> 243 \<and> is_cont b \<and> two_more) \<or>
         (n = 244 \<and> 128 \<le> m \<and> m \<le> 143 \<and> two_more))"
| "utf8_head bs = False"

fun decode_utf8 :: "string \<Rightarrow> error + string" where
  "decode_utf8 [] = Inr []"
| "decode_utf8 (c # cs) =
     (let n = (of_char c :: nat) in
      if n < 128 then
        (case decode_utf8 cs of Inl e \<Rightarrow> Inl e | Inr r \<Rightarrow> Inr (c # r))
      else if \<not> utf8_head (c # cs) then Inl UnicodeDecodeError
      else if n = 194 \<or> n = 195 then
        (case decode_utf8 (tl cs) of
           Inl e \<Rightarrow> Inl e
         | Inr r \<Rightarrow> Inr (char_of (64 * (n - 194) + (of_char (hd cs) :: nat)) # r))
      else Inl Unsupported)"

text \<open>
  \<open>call\<close> and \<open>echocall\<close> get their positional arguments as a list, and no keyword
  argument: the output of the process is decoded. \<open>' '.join(args)\<close> raises \<open>TypeError\<close>
  when an argument is not a string.
\<close>

definition call :: "pyarg list \<Rightarrow> string action" where
  "call args w =
     (case subprocess w args of
        Inl (CalledProcessError output) \<Rightarrow>
          then_do (print (bytes_repr output)) (\<lambda>_. lift (Inl (CalledProcessError output))) w
      | Inl e \<Rightarrow> (Inl e, w)
      | Inr res \<Rightarrow> (decode_utf8 res, w))"

definition echocall :: "pyarg list \<Rightarrow> string action" where
  "echocall args =
     then_do (lift (str_join '' '' args)) (\<lambda>line.
     then_do (print line) (\<lambda>_.
     call args))"

section \<open>Replacing lines (\<open>utils.py\<close>)\<close>

text \<open>
  The two loops of \<open>replace_lines\<close>. The outer loop runs over a copy of the lines taken
  before any change, paired with their indices; both loops update the list \<open>lines\<close>.
  The parameter \<open>end\<close> of the source is called \<open>ending\<close> here.
\<close>

fun replace_inner :: "(string \<times> string) list \<Rightarrow> string \<Rightarrow> nat \<Rightarrow> string \<Rightarrow> string list \<Rightarrow> string list" where
  "replace_inner [] ending i line lines = lines"
| "replace_inner ((substring_to_find, new_line) # changes) ending i line lines =
     replace_inner changes ending i line
       (if contains substring_to_find line \<and> \<not> startswith (strip line) ''#''
        then lines[i := new_line @ ending] else lines)"

fun replace_outer :: "(nat \<times> string) list \<Rightarrow> (string \<times> string) list \<Rightarrow> string \<Rightarrow> string list \<Rightarrow> string list" where
  "replace_outer [] changes ending lines = lines"
| "replace_outer ((i, line) # rest) changes ending lines =
     replace_outer rest changes ending (replace_inner changes ending i line lines)"

definition replace_lines :: "string \<Rightarrow> (string \<times> string) list \<Rightarrow> string \<Rightarrow> unit action" where
  "replace_lines fpath changes ending =
     then_do (read_lines fpath) (\<lambda>lines.
       let lines' = replace_outer (enumerate 0 lines) changes ending lines
       in write_text fpath (concat lines'))"

section \<open>Starting a release cycle (\<open>next_release.py\<close>)\<close>

definition DEFAULT_CHANGELOG_INDEX_TEMPLATE :: string where
  "DEFAULT_CHANGELOG_INDEX_TEMPLATE =
     ''{title}\<newline>{underline}\<newline>\<newline>In development.\<newline>\<newline>.. include:: ./changes/{fname}\<newline>\<newline>\<newline>''"

text \<open>
  The block under \<open>if src_documentation is not None\<close>: it binds \<open>fname\<close> and
  \<open>changelog_file\<close>, which stay unbound (\<open>None\<close> here) when the block is skipped.
\<close>

definition create_notes_file :: "string option \<Rightarrow> string \<Rightarrow> string \<Rightarrow> (string option \<times> string option) action" where
  "create_notes_file src_documentation build_dir release_name =
     (case src_documentation of
        None \<Rightarrow> lift (Inr (None, None))
      | Some src \<Rightarrow>
          then_do (chdir build_dir) (\<lambda>_.
            let fname = relname2fname release_name;
                changes_dir = join src ''changes'';
                changelog_file = join changes_dir fname
            in then_do (copy (join changes_dir ''template.rst.inc'') changelog_file) (\<lambda>_.
               lift (Inr (Some fname, Some changelog_file)))))"

text \<open>Reading a local variable that may be unbound.\<close>

definition local_var :: "'a option \<Rightarrow> 'a action" where
  "local_var v = lift (case v of None \<Rightarrow> Inl UnboundLocalError | Some x \<Rightarrow> Inr x)"

text \<open>
  The rest of \<open>update_changelog\<close> once the changelog has been written: the first twenty
  lines are shown, the operator is asked, and the two files are staged.
\<close>

definition confirm_and_stage :: "string \<Rightarrow> string option \<Rightarrow> unit action" where
  "confirm_and_stage fpath changelog_file =
     then_do (read_text fpath) (\<lambda>text.
     then_do (print (join_lines ''\<newline>'' (take 20 (splitlines False text)))) (\<lambda>_.
     then_do (no ''Does the full changelog look right?'' ''n'') (\<lambda>declined.
       if declined then lift (Inl (SystemExit 1))
       else then_do (local_var changelog_file) (\<lambda>cf.
            then_do (echocall [PyList [''git'', ''add'', fpath, cf]]) (\<lambda>_.
            lift (Inr ()))))))"

definition update_changelog :: "string option \<Rightarrow> string \<Rightarrow> string \<Rightarrow> string \<Rightarrow> unit action" where
  "update_changelog src_documentation build_dir release_name changelog_index_template =
     then_do (create_notes_file src_documentation build_dir release_name) (\<lambda>(fname, changelog_file).
     then_do (lift (join_opt src_documentation ''changes.rst'')) (\<lambda>fpath.
     then_do (read_lines fpath) (\<lambda>lines.
       let title = ''Version '' @ short release_name
       in if length lines \<le> 3 then lift (Inl IndexError)
          else if lines ! 3 = title @ ''\<newline>'' then
            print (''changes.rst not modified (it already contains '' @ title @ '')'')
          else
            then_do (local_var fname) (\<lambda>fname'.
            then_do (lift (str_format changelog_index_template
                       [(''title'', title),
                        (''underline'', replicate (length title) CHR ''=''),
                        (''fname'', fname')])) (\<lambda>this_version.
              let lines' = take 3 lines @ splitlines True this_version @ drop 3 lines
              in then_do (write_text fpath (concat lines')) (\<lambda>_.
                 confirm_and_stage fpath changelog_file))))))"

text \<open>
  \<open>update_version\<close> belongs to \<open>make_release.py\<close>, which is not among the sources: it is a
  parameter of \<open>add_release\<close>.
\<close>

definition add_release ::
  "(string \<Rightarrow> string \<Rightarrow> string \<Rightarrow> string \<Rightarrow> unit action) \<Rightarrow>
   string \<Rightarrow> string \<Rightarrow> string \<Rightarrow> string \<Rightarrow> string option \<Rightarrow> string \<Rightarrow> unit action" where
  "add_release update_version local_repository package_name module_name release_name
     src_documentation changelog_index_template =
     then_do (update_changelog src_documentation local_repository release_name
                changelog_index_template) (\<lambda>_.
     update_version local_repository (release_name @ ''-dev'') package_name module_name)"

section \<open>Example states\<close>

text \<open>A working directory that holds one configuration file.\<close>

definition example_config :: world where
  "example_config =
     \<lparr>cwd = ''/repo'',
      files = [''/repo/setup.py'' \<mapsto>
                 ''# version = 1.1\<newline>version = 1.1\<newline>name = pkg''],
      stdin = [],
      stdout = [],
      subprocess = (\<lambda>args. Inr [])\<rparr>"

text \<open>
  The same directory with a configuration file whose lines end with a carriage return and
  a newline.
\<close>

definition example_crlf_config :: world where
  "example_crlf_config =
     example_config\<lparr>files := [''/repo/setup.py'' \<mapsto>
        ''# version = 1.1'' @ [CHR 0x0D, CHR 0x0A] @ ''name = pkg'' @ [CHR 0x0D, CHR 0x0A]]\<rparr>"

text \<open>
  A repository whose changelog has a header of three lines and one section, for
  version 1.1.
\<close>

definition example_repo :: world where
  "example_repo =
     \<lparr>cwd = ''/'',
      files = [''/repo/doc/changes.rst'' \<mapsto>
                 ''..\<newline>  Change log\<newline>..\<newline>Version 1.1\<newline>===========\<newline>\<newline>.. include:: ./changes/version_1_1.rst.inc\<newline>'',
               ''/repo/doc/changes/template.rst.inc'' \<mapsto> ''New features\<newline>''],
      stdin = [''y''],
      stdout = [],
      subprocess = (\<lambda>args. Inr [])\<rparr>"



section \<open>Release names: properties\<close>

lemma count_char_append: "count_char c (xs @ ys) = count_char c xs + count_char c ys"
  by (simp add: count_char_def)

lemma count_char_take_drop: "count_char c (take n s) + count_char c (drop n s) = count_char c s"
  by (metis append_take_drop_id count_char_append)

lemma match_here_Nil: "\<not> match_here tag []"
  by (simp add: match_here_def)

lemma re_search_None_iff: "re_search tag s = None \<longleftrightarrow> (\<forall>i. \<not> occurs_at tag s i)"
proof (induction s)
  case Nil
  then show ?case by (simp add: occurs_at_def match_here_Nil)
next
  case (Cons c cs)
  show ?case
  proof (cases "match_here tag (c # cs)")
    case True
    then have "occurs_at tag (c # cs) 0" by (simp add: occurs_at_def)
    with True show ?thesis by auto
  next
    case False
    have "(\<forall>i. \<not> occurs_at tag (c # cs) i) \<longleftrightarrow> (\<forall>i. \<not> occurs_at tag cs i)"
    proof
      assume a: "\<forall>i. \<not> occurs_at tag (c # cs) i"
      show "\<forall>i. \<not> occurs_at tag cs i"
      proof
        fix i from a have "\<not> occurs_at tag (c # cs) (Suc i)" by blast
        then show "\<not> occurs_at tag cs i" by (simp add: occurs_at_def)
      qed
    next
      assume a: "\<forall>i. \<not> occurs_at tag cs i"
      show "\<forall>i. \<not> occurs_at tag (c # cs) i"
      proof
        fix i show "\<not> occurs_at tag (c # cs) i"
          using a False by (cases i) (simp_all add: occurs_at_def)
      qed
    qed
    with False Cons show ?thesis by simp
  qed
qed

lemma re_search_Some:
  "re_search tag s = Some p \<Longrightarrow> occurs_at tag s p \<and> (\<forall>j<p. \<not> occurs_at tag s j)"
proof (induction s arbitrary: p)
  case Nil
  then show ?case by (simp add: match_here_Nil)
next
  case (Cons c cs)
  show ?case
  proof (cases "match_here tag (c # cs)")
    case True
    with Cons.prems show ?thesis by (simp add: occurs_at_def)
  next
    case False
    with Cons.prems obtain q where q: "re_search tag cs = Some q" "p = Suc q" by auto
    from Cons.IH [OF q(1)] have ih: "occurs_at tag cs q" "\<forall>j<q. \<not> occurs_at tag cs j" by auto
    have "\<not> occurs_at tag (c # cs) j" if "j < p" for j
      using that False ih(2) q(2) by (cases j) (simp_all add: occurs_at_def)
    moreover have "occurs_at tag (c # cs) p" using ih(1) q(2) by (simp add: occurs_at_def)
    ultimately show ?thesis by blast
  qed
qed

lemma re_search_le: "re_search tag s = Some p \<Longrightarrow> p < length s"
proof (induction s arbitrary: p)
  case Nil then show ?case by (simp add: match_here_Nil)
next
  case (Cons c cs) then show ?case by (auto split: if_splits)
qed

lemma pretag_loop_None_iff:
  "pretag_loop tags s = None \<longleftrightarrow> (\<forall>tag\<in>set tags. re_search tag s = None)"
  by (induction tags) (auto split: option.splits)

lemma pretag_loop_Some:
  "pretag_loop tags s = Some p \<Longrightarrow>
     \<exists>k<length tags. re_search (tags ! k) s = Some p \<and> (\<forall>k'<k. re_search (tags ! k') s = None)"
proof (induction tags)
  case Nil then show ?case by simp
next
  case (Cons t ts)
  show ?case
  proof (cases "re_search t s")
    case None
    with Cons.prems have "pretag_loop ts s = Some p" by simp
    from Cons.IH [OF this] obtain k where k: "k < length ts" "re_search (ts ! k) s = Some p"
      "\<forall>k'<k. re_search (ts ! k') s = None" by blast
    have "\<forall>k'<Suc k. re_search ((t # ts) ! k') s = None"
    proof (intro allI impI)
      fix k' assume "k' < Suc k" then show "re_search ((t # ts) ! k') s = None"
        using None k(3) by (cases k') simp_all
    qed
    with k(1,2) show ?thesis by (intro exI [of _ "Suc k"]) simp
  next
    case (Some q)
    with Cons.prems have "q = p" by simp
    with Some show ?thesis by (intro exI [of _ 0]) simp
  qed
qed

lemma pretag_pos_lt: "pretag_pos name = Some pos \<Longrightarrow> pos < length name"
  unfolding pretag_pos_def by (drule pretag_loop_Some) (auto dest: re_search_le)

lemma str_nat_0: "str_nat 0 = ''0''"
  by (simp add: str_nat.simps)

text \<open>
  Claim C1. For a release name with exactly one dot, \<open>long_release_name\<close> returns the
  name with \<open>.0\<close> inserted just before the index that \<open>pretag_pos\<close> gives when a tag
  is found, and with \<open>.0\<close> appended when none is found; a name with two dots or more is
  returned unchanged.
\<close>

theorem long_release_name_dots:
  "(count_char CHR ''.'' name = 1 \<longrightarrow>
      long_release_name name =
        Inr (case pretag_pos name of
               Some pos \<Rightarrow> take pos name @ ''.0'' @ drop pos name
             | None \<Rightarrow> name @ ''.0'')) \<and>
   (2 \<le> count_char CHR ''.'' name \<longrightarrow> long_release_name name = Inr name)"
  by (simp add: long_release_name_def split: option.splits)

theorem long_release_name_dots_witness:
  "count_char CHR ''.'' ''0.8rc1'' = 1 \<and> long_release_name ''0.8rc1'' = Inr ''0.8.0rc1'' \<and>
   count_char CHR ''.'' ''0.8'' = 1 \<and> long_release_name ''0.8'' = Inr ''0.8.0'' \<and>
   2 \<le> count_char CHR ''.'' ''0.8.0rc1'' \<and> long_release_name ''0.8.0rc1'' = Inr ''0.8.0rc1''"
proof -
  have h1: "count_char CHR ''.'' ''0.8rc1'' = 1" by code_simp
  have p1: "pretag_pos ''0.8rc1'' = Some 3" by code_simp
  have h2: "count_char CHR ''.'' ''0.8'' = 1" by code_simp
  have p2: "pretag_pos ''0.8'' = None" by code_simp
  have h3: "2 \<le> count_char CHR ''.'' ''0.8.0rc1''" by code_simp
  from long_release_name_dots [of "''0.8rc1''"] h1 p1
  have r1: "long_release_name ''0.8rc1'' = Inr ''0.8.0rc1''" by simp
  from long_release_name_dots [of "''0.8''"] h2 p2
  have r2: "long_release_name ''0.8'' = Inr ''0.8.0''" by simp
  from long_release_name_dots [of "''0.8.0rc1''"] h3
  have r3: "long_release_name ''0.8.0rc1'' = Inr ''0.8.0rc1''" by blast
  from h1 r1 h2 r2 h3 r3 show ?thesis by blast
qed

text \<open>
  Claim C2 fails as it is stated: \<open>pretag_pos\<close> tries the tags in the order \<open>rc\<close>, \<open>c\<close>,
  \<open>beta\<close>, \<open>b\<close>, \<open>alpha\<close>, \<open>a\<close> and returns for the first tag that occurs, so in
  \<open>0.8a1rc2\<close> it finds \<open>rc2\<close> at index 5, while the leftmost occurrence of the pattern of
  any tag is \<open>a1\<close> at index 3.
\<close>

theorem pretag_pos_leftmost_counterexample:
  "pretag_pos ''0.8a1rc2'' = Some 5 \<and> leftmost_pretag ''0.8a1rc2'' = Some 3"
  by code_simp

text \<open>
  Claim C2, amended. \<open>pretag_pos\<close> returns none exactly when the pattern of no tag occurs
  anywhere in the name. When it returns an index, that index is the start of the leftmost
  occurrence of the pattern of one tag, and the pattern of no tag that comes earlier in the
  order \<open>rc\<close>, \<open>c\<close>, \<open>beta\<close>, \<open>b\<close>, \<open>alpha\<close>, \<open>a\<close> occurs anywhere in the name.
\<close>

theorem pretag_pos_precedence:
  "(pretag_pos name = None \<longleftrightarrow> (\<forall>tag\<in>set pretag_tags. \<forall>i. \<not> occurs_at tag name i)) \<and>
   (\<forall>pos. pretag_pos name = Some pos \<longrightarrow>
      (\<exists>k<length pretag_tags.
         occurs_at (pretag_tags ! k) name pos \<and>
         (\<forall>j<pos. \<not> occurs_at (pretag_tags ! k) name j) \<and>
         (\<forall>k'<k. \<forall>i. \<not> occurs_at (pretag_tags ! k') name i)))"
proof (intro conjI allI impI)
  show "pretag_pos name = None \<longleftrightarrow> (\<forall>tag\<in>set pretag_tags. \<forall>i. \<not> occurs_at tag name i)"
    by (simp only: pretag_pos_def pretag_loop_None_iff re_search_None_iff)
next
  fix pos assume "pretag_pos name = Some pos"
  then have "pretag_loop pretag_tags name = Some pos" by (simp add: pretag_pos_def)
  from pretag_loop_Some [OF this] obtain k where k: "k < length pretag_tags"
    "re_search (pretag_tags ! k) name = Some pos"
    "\<forall>k'<k. re_search (pretag_tags ! k') name = None" by blast
  from re_search_Some [OF k(2)] k(3) k(1)
  show "\<exists>k<length pretag_tags.
         occurs_at (pretag_tags ! k) name pos \<and>
         (\<forall>j<pos. \<not> occurs_at (pretag_tags ! k) name j) \<and>
         (\<forall>k'<k. \<forall>i. \<not> occurs_at (pretag_tags ! k') name i)"
    by (auto simp: re_search_None_iff)
qed

theorem pretag_pos_precedence_witness:
  "pretag_pos ''0.8.1rc1'' = Some 5 \<and>
   (\<exists>k<length pretag_tags. occurs_at (pretag_tags ! k) ''0.8.1rc1'' 5) \<and>
   pretag_pos ''0.8'' = None \<and> \<not> occurs_at ''a'' ''0.8'' 1"
proof -
  have p: "pretag_pos ''0.8.1rc1'' = Some 5" by code_simp
  have q: "pretag_pos ''0.8'' = None" by code_simp
  have a: "''a'' \<in> set pretag_tags" by (simp add: pretag_tags_def)
  from pretag_pos_precedence [of "''0.8.1rc1''"] p
  have "\<exists>k<length pretag_tags. occurs_at (pretag_tags ! k) ''0.8.1rc1'' 5" by blast
  moreover from pretag_pos_precedence [of "''0.8''"] q a
  have "\<not> occurs_at ''a'' ''0.8'' 1" by blast
  ultimately show ?thesis using p q by blast
qed

text \<open>
  Claim C8. For a release name without a dot, \<open>long_release_name\<close> returns no value: the
  assertion on the number of dots fails. The \<open>AssertionError\<close> of the code is what the
  specification calls \<open>InvalidVersionFormat\<close>.
\<close>

theorem long_release_name_no_dot:
  "count_char CHR ''.'' name = 0 \<Longrightarrow>
     long_release_name name = Inl (AssertionError (name @ '' contains 0 dots''))"
  by (simp add: long_release_name_def str_nat_0)

theorem long_release_name_no_dot_witness:
  "count_char CHR ''.'' ''08rc1'' = 0 \<and>
   long_release_name ''08rc1'' = Inl (AssertionError ''08rc1 contains 0 dots'')"
proof -
  have h: "count_char CHR ''.'' ''08rc1'' = 0" by code_simp
  from long_release_name_no_dot [OF h] h show ?thesis by simp
qed

text \<open>
  Claim C9 fails as it is stated: a name with more than two dots is returned unchanged,
  so \<open>1.2.3.4\<close> comes back with its three dots.
\<close>

theorem long_release_name_dotcount_counterexample:
  "long_release_name ''1.2.3.4'' = Inr ''1.2.3.4'' \<and> count_char CHR ''.'' ''1.2.3.4'' = 3"
  by code_simp

text \<open>
  Claim C9, amended. When \<open>long_release_name\<close> returns a name, that name has as many dots
  as the given name or two, whichever is more: exactly two when the given name has one or
  two dots, and at least two always.
\<close>

theorem long_release_name_dotcount:
  "long_release_name name = Inr r \<Longrightarrow>
     count_char CHR ''.'' r = max 2 (count_char CHR ''.'' name)"
proof -
  assume a: "long_release_name name = Inr r"
  have ins: "count_char CHR ''.'' (take pos name @ ''.0'' @ drop pos name) = Suc (count_char CHR ''.'' name)" for pos
    using count_char_take_drop [of "CHR ''.''" pos name]
    by (simp add: count_char_append) (simp add: count_char_def)
  have app: "count_char CHR ''.'' (name @ ''.0'') = Suc (count_char CHR ''.'' name)"
    by (simp add: count_char_def)
  show ?thesis
  proof (cases "2 \<le> count_char CHR ''.'' name")
    case True
    with a show ?thesis by (simp add: long_release_name_def)
  next
    case False
    with a have one: "count_char CHR ''.'' name = 1"
      by (simp add: long_release_name_def Let_def split: if_splits)
    show ?thesis
    proof (cases "pretag_pos name")
      case None
      with a one have "r = name @ ''.0''" by (simp add: long_release_name_def)
      with app one show ?thesis by simp
    next
      case (Some pos)
      with a one have "r = take pos name @ ''.0'' @ drop pos name"
        by (simp add: long_release_name_def)
      with ins [of pos] one show ?thesis by simp
    qed
  qed
qed

theorem long_release_name_dotcount_witness:
  "long_release_name ''0.8rc1'' = Inr ''0.8.0rc1'' \<and> count_char CHR ''.'' ''0.8.0rc1'' = 2"
proof -
  have h: "long_release_name ''0.8rc1'' = Inr ''0.8.0rc1''" by code_simp
  have c: "count_char CHR ''.'' ''0.8rc1'' = 1" by code_simp
  from long_release_name_dotcount [OF h] c h show ?thesis by simp
qed

text \<open>
  Claim C5 fails as it is stated, in its last part: stripping the tag that \<open>pretag_pos\<close>
  finds can leave a tag that comes later in the order of the tags. From \<open>0.8a1rc2\<close>
  the tag \<open>rc2\<close> is stripped and \<open>a1\<close> stays in the file name; stripping first and
  naming then removes both.
\<close>

theorem relname2fname_counterexample:
  "relname2fname ''0.8a1rc2'' = ''version_0_8a1.rst.inc'' \<and>
   relname2fname (strip_pretags ''0.8a1rc2'') = ''version_0_8.rst.inc''"
  by code_simp

text \<open>
  Claim C5, amended. \<open>relname2fname\<close> takes \<open>short (strip_pretags name)\<close>, replaces every
  dot by an underscore and puts the result between \<open>version_\<close> and \<open>.rst.inc\<close>; the two
  examples of the specification hold; and the file name of a release name is the file
  name of its stripped form whenever the stripped form holds no further tag.
\<close>

theorem relname2fname_stripped:
  "relname2fname name =
     ''version_'' @ replace_char CHR ''.'' CHR ''_'' (short (strip_pretags name)) @ ''.rst.inc'' \<and>
   relname2fname ''0.8.0'' = ''version_0_8.rst.inc'' \<and>
   relname2fname ''0.8.1rc1'' = ''version_0_8_1.rst.inc'' \<and>
   (pretag_pos (strip_pretags name) = None \<longrightarrow>
      relname2fname name = relname2fname (strip_pretags name))"
proof (intro conjI impI)
  show "relname2fname name =
     ''version_'' @ replace_char CHR ''.'' CHR ''_'' (short (strip_pretags name)) @ ''.rst.inc''"
    by (simp add: relname2fname_def)
  show "relname2fname ''0.8.0'' = ''version_0_8.rst.inc''" by code_simp
  show "relname2fname ''0.8.1rc1'' = ''version_0_8_1.rst.inc''" by code_simp
next
  assume "pretag_pos (strip_pretags name) = None"
  then have "strip_pretags (strip_pretags name) = strip_pretags name"
    by (simp add: strip_pretags_def [of "strip_pretags name"])
  then show "relname2fname name = relname2fname (strip_pretags name)"
    by (simp add: relname2fname_def)
qed

theorem relname2fname_stripped_witness:
  "pretag_pos (strip_pretags ''0.8.1rc1'') = None \<and>
   relname2fname ''0.8.1rc1'' = relname2fname ''0.8.1''"
proof -
  have h: "pretag_pos (strip_pretags ''0.8.1rc1'') = None" by code_simp
  have s: "strip_pretags ''0.8.1rc1'' = ''0.8.1''" by code_simp
  from relname2fname_stripped [of "''0.8.1rc1''"] h
  have "relname2fname ''0.8.1rc1'' = relname2fname (strip_pretags ''0.8.1rc1'')" by blast
  with h s show ?thesis by simp
qed

section \<open>Lines and paths: properties\<close>






lemma universal_newlines_no_cr: "CHR 0x0D \<notin> set (universal_newlines s)"
  by (induction s rule: universal_newlines.induct) auto

lemma universal_newlines_id: "CHR 0x0D \<notin> set s \<Longrightarrow> universal_newlines s = s"
  by (induction s rule: universal_newlines.induct) auto



lemma cut_lines_Nil_iff [simp]: "cut_lines s = [] \<longleftrightarrow> s = []"
  by (cases s) (auto split: list.splits)

lemma concat_cut_lines [simp]: "concat (cut_lines s) = s"
  by (induction s) (auto split: list.splits)

lemma cut_lines_no_newline:
  "CHR ''\<newline>'' \<notin> set s \<Longrightarrow> cut_lines s = (if s = [] then [] else [s])"
  by (induction s) (auto split: list.splits)

lemma cut_lines_append_line:
  "CHR ''\<newline>'' \<notin> set body \<Longrightarrow>
     cut_lines (body @ CHR ''\<newline>'' # rest) = (body @ ''\<newline>'') # cut_lines rest"
  by (induction body) auto




lemma readlines_no_cr: "CHR 0x0D \<notin> set (concat (readlines s))"
  by (simp add: readlines_def universal_newlines_no_cr)


lemma concat_readlines: "CHR 0x0D \<notin> set s \<Longrightarrow> concat (readlines s) = s"
  by (simp add: readlines_def universal_newlines_id)






lemma is_lines_Cons:
  "is_lines (l # ls) =
     (if ls = [] then l \<noteq> [] \<and> CHR 0x0A \<notin> set (butlast l) \<and> CHR 0x0D \<notin> set l
      else complete_line l \<and> is_lines ls)"
  by (cases ls) simp_all

lemma is_lines_cut_lines: "CHR 0x0D \<notin> set s \<Longrightarrow> is_lines (cut_lines s)"
proof (induction s)
  case Nil
  show ?case by simp
next
  case (Cons c cs)
  then have ih: "is_lines (cut_lines cs)" and c: "c \<noteq> CHR 0x0D" by auto
  show ?case
  proof (cases "c = CHR 0x0A")
    case True
    with ih show ?thesis by (simp add: is_lines_Cons complete_line_def)
  next
    case False
    show ?thesis
    proof (cases "cut_lines cs")
      case Nil
      with False c show ?thesis by simp
    next
      case (Cons l ls)
      with ih have "is_lines (l # ls)" by simp
      then have "is_lines ((c # l) # ls)"
        using False c by (auto simp: is_lines_Cons complete_line_def split: if_splits)
      with False Cons show ?thesis by simp
    qed
  qed
qed

lemma is_lines_readlines: "is_lines (readlines s)"
  by (simp add: readlines_def is_lines_cut_lines universal_newlines_no_cr)

lemma is_lines_update: "is_lines ls \<Longrightarrow> complete_line l \<Longrightarrow> is_lines (ls[i := l])"
proof (induction ls arbitrary: i)
  case Nil
  then show ?case by simp
next
  case (Cons x xs)
  show ?case
  proof (cases i)
    case 0
    with Cons.prems show ?thesis
      by (auto simp: is_lines_Cons complete_line_def split: if_splits)
  next
    case (Suc j)
    show ?thesis
    proof (cases "xs = []")
      case True
      with Cons.prems Suc show ?thesis by simp
    next
      case False
      with Cons.prems have "complete_line x" "is_lines xs" by (simp_all add: is_lines_Cons)
      with Cons.IH [OF _ Cons.prems(2), of j] False Suc show ?thesis
        by (simp add: is_lines_Cons)
    qed
  qed
qed

lemma is_lines_no_cr: "is_lines ls \<Longrightarrow> CHR 0x0D \<notin> set (concat ls)"
  by (induction ls rule: is_lines.induct) (auto simp: complete_line_def)

lemma cut_lines_single:
  assumes "l \<noteq> []" and "CHR 0x0A \<notin> set (butlast l)"
  shows "cut_lines l = [l]"
proof (cases "last l = CHR 0x0A")
  case True
  from assms(1) have "butlast l @ [last l] = l" by simp
  with True have l: "butlast l @ CHR 0x0A # [] = l" by simp
  from cut_lines_append_line [of "butlast l" "[]"] assms(2)
  have "cut_lines (butlast l @ CHR 0x0A # []) = [butlast l @ CHR 0x0A # []]" by simp
  then show ?thesis by (simp only: l)
next
  case False
  from assms(1) have e: "butlast l @ [last l] = l" by simp
  from assms(2) False have "CHR 0x0A \<notin> set (butlast l @ [last l])" by auto
  then have "CHR 0x0A \<notin> set l" unfolding e .
  with assms(1) show ?thesis by (simp add: cut_lines_no_newline)
qed

lemma cut_lines_concat: "is_lines ls \<Longrightarrow> cut_lines (concat ls) = ls"
proof (induction ls rule: is_lines.induct)
  case 1
  show ?case by simp
next
  case (2 l)
  then show ?case by (simp add: cut_lines_single)
next
  case (3 l m ls)
  then have c: "complete_line l" and ih: "cut_lines (concat (m # ls)) = m # ls" by simp_all
  from c have nl: "CHR 0x0A \<notin> set (butlast l)" by (simp add: complete_line_def)
  from c have ne: "l \<noteq> []" and la: "last l = CHR 0x0A" by (simp_all add: complete_line_def)
  from ne have "butlast l @ [last l] = l" by simp
  then have l: "butlast l @ CHR 0x0A # [] = l" unfolding la .
  have "concat (l # m # ls) = (butlast l @ CHR 0x0A # []) @ concat (m # ls)"
    by (simp only: l concat.simps)
  then have "concat (l # m # ls) = butlast l @ CHR 0x0A # concat (m # ls)" by simp
  then have "cut_lines (concat (l # m # ls)) =
      (butlast l @ CHR 0x0A # []) # cut_lines (concat (m # ls))"
    using cut_lines_append_line [OF nl, of "concat (m # ls)"] by (simp only:)
  then show ?case by (simp only: l ih)
qed

lemma readlines_concat:
  assumes "is_lines ls"
  shows "readlines (concat ls) = ls"
proof -
  from assms have "CHR 0x0D \<notin> set (concat ls)" by (rule is_lines_no_cr)
  then have "universal_newlines (concat ls) = concat ls" by (rule universal_newlines_id)
  with cut_lines_concat [OF assms] show ?thesis by (simp only: readlines_def)
qed

lemma last_join: "b \<noteq> [] \<Longrightarrow> last (join a b) = last b"
  by (simp add: join_def)

lemma join_relative: "\<not> startswith c ''/'' \<Longrightarrow> join b c = dir_prefix b @ c"
  by (simp add: join_def dir_prefix_def)

lemma startswith_append: "q \<noteq> [] \<Longrightarrow> startswith (q @ c) ''/'' = startswith q ''/''"
  by (cases q) simp_all

lemma join_join_relative:
  "\<exists>pre. \<forall>c. \<not> startswith c ''/'' \<longrightarrow> join a (join b c) = pre @ c"
proof (cases "dir_prefix b = []")
  case True
  have "join a (join b c) = dir_prefix a @ c" if "\<not> startswith c ''/''" for c
  proof -
    from that True have "join b c = c" by (simp add: join_relative)
    with that show ?thesis by (simp add: join_relative)
  qed
  then show ?thesis by blast
next
  case False
  show ?thesis
  proof (cases "startswith (dir_prefix b) ''/''")
    case True
    have "join a (join b c) = dir_prefix b @ c" if "\<not> startswith c ''/''" for c
    proof -
      from that have j: "join b c = dir_prefix b @ c" by (rule join_relative)
      from True startswith_append [OF False, of c] have "startswith (dir_prefix b @ c) ''/''"
        by simp
      then show ?thesis unfolding j by (simp only: join_def if_True)
    qed
    then show ?thesis by blast
  next
    case rel: False
    have "join a (join b c) = (dir_prefix a @ dir_prefix b) @ c" if "\<not> startswith c ''/''" for c
    proof -
      from that have j: "join b c = dir_prefix b @ c" by (rule join_relative)
      from rel startswith_append [OF False, of c] have "\<not> startswith (dir_prefix b @ c) ''/''"
        by simp
      then have "join a (dir_prefix b @ c) = dir_prefix a @ (dir_prefix b @ c)"
        by (rule join_relative)
      then show ?thesis unfolding j by (simp only: append_assoc)
    qed
    then show ?thesis by blast
  qed
qed

lemma relname2fname_shape:
  "relname2fname release_name \<noteq> [] \<and> last (relname2fname release_name) = CHR ''c'' \<and>
   \<not> startswith (relname2fname release_name) ''/'' \<and>
   ''template.rst.inc'' \<noteq> relname2fname release_name"
  by (simp add: relname2fname_def Let_def)

lemma notes_path_neq_doc_path:
  "join cwd1 (join (join src ''changes'') (relname2fname release_name)) \<noteq>
   join cwd1 (join src ''changes.rst'')"
proof -
  have "join (join src ''changes'') (relname2fname release_name) \<noteq> []"
    using relname2fname_shape [of release_name] by (simp add: join_def)
  then have "last (join cwd1 (join (join src ''changes'') (relname2fname release_name))) =
      last (join (join src ''changes'') (relname2fname release_name))"
    by (rule last_join)
  also have "\<dots> = CHR ''c''"
    using relname2fname_shape [of release_name] by (simp add: last_join)
  finally have a: "last (join cwd1 (join (join src ''changes'') (relname2fname release_name))) = CHR ''c''" .
  have "join src ''changes.rst'' \<noteq> []" by (simp add: join_def)
  then have "last (join cwd1 (join src ''changes.rst'')) = last (join src ''changes.rst'')"
    by (rule last_join)
  also have "\<dots> = CHR ''t''" by (simp add: last_join)
  finally have b: "last (join cwd1 (join src ''changes.rst'')) = CHR ''t''" .
  show ?thesis
  proof
    assume "join cwd1 (join (join src ''changes'') (relname2fname release_name)) =
      join cwd1 (join src ''changes.rst'')"
    with a b show False by simp
  qed
qed

lemma template_path_neq_notes_path:
  "join cwd1 (join (join src ''changes'') ''template.rst.inc'') \<noteq>
   join cwd1 (join (join src ''changes'') (relname2fname release_name))"
proof -
  from join_join_relative [of cwd1 "join src ''changes''"] obtain pre where
    pre: "\<forall>c. \<not> startswith c ''/'' \<longrightarrow> join cwd1 (join (join src ''changes'') c) = pre @ c"
    by blast
  have t: "\<not> startswith ''template.rst.inc'' ''/''" by simp
  from pre t have 1: "join cwd1 (join (join src ''changes'') ''template.rst.inc'') =
      pre @ ''template.rst.inc''" by blast
  from pre relname2fname_shape [of release_name]
  have 2: "join cwd1 (join (join src ''changes'') (relname2fname release_name)) =
      pre @ relname2fname release_name" by blast
  from relname2fname_shape [of release_name] show ?thesis
    unfolding 1 2 by (simp only: same_append_eq not_False_eq_True)
qed

section \<open>Replacing lines: properties\<close>

lemma replace_inner_length [simp]:
  "length (replace_inner changes ending i line lines) = length lines"
  by (induction changes ending i line lines rule: replace_inner.induct) auto

lemma replace_inner_other:
  "j \<noteq> i \<Longrightarrow> replace_inner changes ending i line lines ! j = lines ! j"
  by (induction changes ending i line lines rule: replace_inner.induct) auto

lemma replace_inner_keep:
  "startswith (strip line) ''#'' \<or> (\<forall>(sub, new) \<in> set changes. \<not> contains sub line) \<Longrightarrow>
     replace_inner changes ending i line lines = lines"
  by (induction changes ending i line lines rule: replace_inner.induct) auto

lemma replace_outer_length [simp]:
  "length (replace_outer rest changes ending lines) = length lines"
  by (induction rest changes ending lines rule: replace_outer.induct) auto

lemma replace_outer_keep:
  "\<forall>(i, line) \<in> set rest. i = j \<longrightarrow>
      startswith (strip line) ''#'' \<or> (\<forall>(sub, new) \<in> set changes. \<not> contains sub line) \<Longrightarrow>
   replace_outer rest changes ending lines ! j = lines ! j"
proof (induction rest changes ending lines rule: replace_outer.induct)
  case (1 changes ending lines)
  then show ?case by simp
next
  case (2 i line rest changes ending lines)
  have "replace_inner changes ending i line lines ! j = lines ! j"
  proof (cases "i = j")
    case True
    with "2.prems" show ?thesis by (simp add: replace_inner_keep)
  next
    case False
    then show ?thesis by (simp add: replace_inner_other)
  qed
  moreover from "2.prems" have
    "replace_outer rest changes ending (replace_inner changes ending i line lines) ! j =
       replace_inner changes ending i line lines ! j"
    by (intro "2.IH") auto
  ultimately show ?case by simp
qed

lemma enumerate_0_mem: "(i, line) \<in> set (enumerate 0 lines) \<Longrightarrow> line = lines ! i"
  by (auto simp: in_set_enumerate_eq)

lemma replace_inner_is_lines:
  "is_lines lines \<Longrightarrow> \<forall>(sub, new) \<in> set changes. complete_line (new @ ending) \<Longrightarrow>
     is_lines (replace_inner changes ending i line lines)"
proof (induction changes ending i line lines rule: replace_inner.induct)
  case (1 ending i line lines)
  then show ?case by simp
next
  case (2 substring_to_find new_line changes ending i line lines)
  from "2.prems"(2) have c: "complete_line (new_line @ ending)"
    and rest: "\<forall>(sub, new) \<in> set changes. complete_line (new @ ending)" by auto
  from "2.prems"(1) c have "is_lines (lines[i := new_line @ ending])" by (rule is_lines_update)
  with "2.prems"(1) have
    "is_lines (if contains substring_to_find line \<and> \<not> startswith (strip line) ''#''
               then lines[i := new_line @ ending] else lines)" by simp
  from "2.IH" [OF this rest] show ?case by simp
qed

lemma replace_outer_is_lines:
  "is_lines lines \<Longrightarrow> \<forall>(sub, new) \<in> set changes. complete_line (new @ ending) \<Longrightarrow>
     is_lines (replace_outer rest changes ending lines)"
proof (induction rest changes ending lines rule: replace_outer.induct)
  case (1 changes ending lines)
  then show ?case by simp
next
  case (2 i line rest changes ending lines)
  from "2.prems" have "is_lines (replace_inner changes ending i line lines)"
    by (rule replace_inner_is_lines)
  from "2.IH" [OF this "2.prems"(2)] show ?case by simp
qed

text \<open>
  Claim C7 fails as it is stated. The file is opened in text mode: a line that ends with
  a carriage return and a newline is read, and written back, with a newline alone, so a
  comment line and a line without any of the substrings lose their original line ending.
  And with an empty \<open>end\<close> the replacement of a line has no newline: the line that follows
  it, although left alone, is no line of its own in the file written.
\<close>

theorem replace_lines_frame_counterexample:
  "files example_crlf_config ''/repo/setup.py'' =
     Some (''# version = 1.1'' @ [CHR 0x0D, CHR 0x0A] @ ''name = pkg'' @ [CHR 0x0D, CHR 0x0A]) \<and>
   files (snd (replace_lines ''setup.py'' [(''version'', ''version = 1.2'')] ''\<newline>''
                 example_crlf_config)) ''/repo/setup.py'' =
     Some ''# version = 1.1\<newline>name = pkg\<newline>'' \<and>
   files example_config ''/repo/setup.py'' =
     Some ''# version = 1.1\<newline>version = 1.1\<newline>name = pkg'' \<and>
   files (snd (replace_lines ''setup.py'' [(''version'', ''version = 1.2'')] ''''
                 example_config)) ''/repo/setup.py'' =
     Some ''# version = 1.1\<newline>version = 1.2name = pkg''"
  by code_simp

text \<open>
  Claim C7, amended. The lines of the file are those that \<open>readlines\<close> returns in text
  mode: the text of the file with every line ending read as a newline, cut after each
  newline. \<open>replace_lines\<close> writes back as many lines as it read, and a line whose
  stripped form starts with \<open>#\<close>, or that contains none of the substrings looked for, is
  written back as it was read, so without carriage return. When every replacement, with
  the ending added, is a complete line, the lines of the file written are the lines handed
  to \<open>writelines\<close>, so that such a line stands unchanged at its index in the new file. In
  a file without carriage return the lines read are the text of the file itself: there
  such a line is kept byte for byte.
\<close>

theorem replace_lines_frame:
  assumes "files w (abspath w fpath) = Some content"
  shows "\<exists>lines'.
           replace_lines fpath changes ending w =
             (Inr (), w\<lparr>files := (files w)(abspath w fpath \<mapsto> concat lines')\<rparr>) \<and>
           length lines' = length (readlines content) \<and>
           (\<forall>i<length (readlines content).
              startswith (strip (readlines content ! i)) ''#'' \<or>
              (\<forall>(sub, new) \<in> set changes. \<not> contains sub (readlines content ! i)) \<longrightarrow>
              lines' ! i = readlines content ! i \<and> CHR 0x0D \<notin> set (lines' ! i)) \<and>
           ((\<forall>(sub, new) \<in> set changes. complete_line (new @ ending)) \<longrightarrow>
              readlines (concat lines') = lines') \<and>
           concat (readlines content) = universal_newlines content \<and>
           (CHR 0x0D \<notin> set content \<longrightarrow> universal_newlines content = content)"
proof -
  let ?lines = "readlines content"
  let ?lines' = "replace_outer (enumerate 0 ?lines) changes ending ?lines"
  have "replace_lines fpath changes ending w =
          (Inr (), w\<lparr>files := (files w)(abspath w fpath \<mapsto> concat ?lines')\<rparr>)"
    using assms by (simp add: replace_lines_def then_do_def read_lines_def write_text_def Let_def)
  moreover have "length ?lines' = length ?lines" by simp
  moreover have "?lines' ! i = ?lines ! i \<and> CHR 0x0D \<notin> set (?lines' ! i)"
    if i: "i < length ?lines"
      and k: "startswith (strip (?lines ! i)) ''#'' \<or>
        (\<forall>(sub, new) \<in> set changes. \<not> contains sub (?lines ! i))" for i
  proof -
    from k have e: "?lines' ! i = ?lines ! i"
      by (intro replace_outer_keep) (auto dest: enumerate_0_mem)
    from i have "?lines ! i \<in> set ?lines" by (rule nth_mem)
    with readlines_no_cr [of content] have "CHR 0x0D \<notin> set (?lines ! i)" by auto
    with e show ?thesis by simp
  qed
  moreover have "readlines (concat ?lines') = ?lines'"
    if "\<forall>(sub, new) \<in> set changes. complete_line (new @ ending)"
  proof -
    from is_lines_readlines [of content] that have "is_lines ?lines'"
      by (rule replace_outer_is_lines)
    then show ?thesis by (rule readlines_concat)
  qed
  moreover have "concat ?lines = universal_newlines content" by (simp add: readlines_def)
  moreover have "universal_newlines content = content" if "CHR 0x0D \<notin> set content"
    using that by (rule universal_newlines_id)
  ultimately show ?thesis by blast
qed

theorem replace_lines_frame_witness:
  "(\<exists>lines'. replace_lines ''setup.py'' [(''version'', ''version = 1.2'')] ''\<newline>''
                example_crlf_config =
       (Inr (), example_crlf_config\<lparr>files :=
          (files example_crlf_config)(''/repo/setup.py'' \<mapsto> concat lines')\<rparr>) \<and>
       lines' ! 0 = ''# version = 1.1\<newline>'' \<and> lines' ! 1 = ''name = pkg\<newline>'' \<and>
       readlines (concat lines') = lines') \<and>
   (\<exists>lines'. replace_lines ''setup.py'' [(''version'', ''version = 1.2'')] ''\<newline>'' example_config =
       (Inr (), example_config\<lparr>files := (files example_config)(''/repo/setup.py'' \<mapsto> concat lines')\<rparr>) \<and>
       lines' ! 0 = ''# version = 1.1\<newline>'' \<and> lines' ! 2 = ''name = pkg'' \<and>
       readlines (concat lines') = lines') \<and>
   concat (readlines ''# version = 1.1\<newline>version = 1.1\<newline>name = pkg'') =
     ''# version = 1.1\<newline>version = 1.1\<newline>name = pkg''"
proof -
  let ?c = "''# version = 1.1\<newline>version = 1.1\<newline>name = pkg''"
  let ?d = "''# version = 1.1'' @ [CHR 0x0D, CHR 0x0A] @ ''name = pkg'' @ [CHR 0x0D, CHR 0x0A]"
  let ?changes = "[(''version'', ''version = 1.2'')]"
  have p: "abspath example_config ''setup.py'' = ''/repo/setup.py''" by code_simp
  have q: "abspath example_crlf_config ''setup.py'' = ''/repo/setup.py''" by code_simp
  have f: "files example_config (abspath example_config ''setup.py'') = Some ?c" by code_simp
  have g: "files example_crlf_config (abspath example_crlf_config ''setup.py'') = Some ?d"
    by code_simp
  have l: "readlines ?c = [''# version = 1.1\<newline>'', ''version = 1.1\<newline>'', ''name = pkg'']"
    by code_simp
  have m: "readlines ?d = [''# version = 1.1\<newline>'', ''name = pkg\<newline>'']" by code_simp
  have c0: "startswith (strip ''# version = 1.1\<newline>'') ''#''" by code_simp
  have c1: "\<forall>(sub, new) \<in> set ?changes. \<not> contains sub ''name = pkg\<newline>''" by code_simp
  have c2: "\<forall>(sub, new) \<in> set ?changes. \<not> contains sub ''name = pkg''" by code_simp
  have cl: "\<forall>(sub, new) \<in> set ?changes. complete_line (new @ ''\<newline>'')" by code_simp
  have cr: "CHR 0x0D \<notin> set ?c" by code_simp
  from replace_lines_frame [OF g, of ?changes "''\<newline>''"]
  obtain lines1 where r1:
    "replace_lines ''setup.py'' ?changes ''\<newline>'' example_crlf_config =
       (Inr (), example_crlf_config\<lparr>files := (files example_crlf_config)
          (abspath example_crlf_config ''setup.py'' \<mapsto> concat lines1)\<rparr>)"
    "\<forall>i<length (readlines ?d).
        startswith (strip (readlines ?d ! i)) ''#'' \<or>
        (\<forall>(sub, new) \<in> set ?changes. \<not> contains sub (readlines ?d ! i)) \<longrightarrow>
        lines1 ! i = readlines ?d ! i \<and> CHR 0x0D \<notin> set (lines1 ! i)"
    "(\<forall>(sub, new) \<in> set ?changes. complete_line (new @ ''\<newline>'')) \<longrightarrow>
        readlines (concat lines1) = lines1"
    by blast
  from r1(2) c0 have a0: "lines1 ! 0 = ''# version = 1.1\<newline>''" unfolding m by simp
  from r1(2) c1 have a1: "lines1 ! 1 = ''name = pkg\<newline>''" unfolding m by simp
  from r1(3) cl have a2: "readlines (concat lines1) = lines1" by blast
  from replace_lines_frame [OF f, of ?changes "''\<newline>''"]
  obtain lines2 where r2:
    "replace_lines ''setup.py'' ?changes ''\<newline>'' example_config =
       (Inr (), example_config\<lparr>files := (files example_config)
          (abspath example_config ''setup.py'' \<mapsto> concat lines2)\<rparr>)"
    "\<forall>i<length (readlines ?c).
        startswith (strip (readlines ?c ! i)) ''#'' \<or>
        (\<forall>(sub, new) \<in> set ?changes. \<not> contains sub (readlines ?c ! i)) \<longrightarrow>
        lines2 ! i = readlines ?c ! i \<and> CHR 0x0D \<notin> set (lines2 ! i)"
    "(\<forall>(sub, new) \<in> set ?changes. complete_line (new @ ''\<newline>'')) \<longrightarrow>
        readlines (concat lines2) = lines2"
    "concat (readlines ?c) = universal_newlines ?c"
    "CHR 0x0D \<notin> set ?c \<longrightarrow> universal_newlines ?c = ?c"
    by blast
  from r2(2) c0 have b0: "lines2 ! 0 = ''# version = 1.1\<newline>''" unfolding l by simp
  from r2(2) c2 have b2: "lines2 ! 2 = ''name = pkg''" unfolding l by simp
  from r2(3) cl have b3: "readlines (concat lines2) = lines2" by blast
  from r2(4,5) cr have cc: "concat (readlines ?c) = ?c" by simp
  from r1(1) a0 a1 a2 have first:
    "\<exists>lines'. replace_lines ''setup.py'' ?changes ''\<newline>'' example_crlf_config =
       (Inr (), example_crlf_config\<lparr>files :=
          (files example_crlf_config)(''/repo/setup.py'' \<mapsto> concat lines')\<rparr>) \<and>
       lines' ! 0 = ''# version = 1.1\<newline>'' \<and> lines' ! 1 = ''name = pkg\<newline>'' \<and>
       readlines (concat lines') = lines'"
    unfolding q by blast
  from r2(1) b0 b2 b3 have second:
    "\<exists>lines'. replace_lines ''setup.py'' ?changes ''\<newline>'' example_config =
       (Inr (), example_config\<lparr>files := (files example_config)(''/repo/setup.py'' \<mapsto> concat lines')\<rparr>) \<and>
       lines' ! 0 = ''# version = 1.1\<newline>'' \<and> lines' ! 2 = ''name = pkg'' \<and>
       readlines (concat lines') = lines'"
    unfolding p by blast
  from first second cc show ?thesis by blast
qed

section \<open>The changelog: properties\<close>

text \<open>
  Claim C10. Called without a directory of release notes, \<open>update_changelog\<close> raises
  \<open>TypeError\<close> when it builds the path of the changelog, before any file is read or
  written: the state is the one it was called in. \<open>add_release\<close>, which passes the
  directory on, stops there as well, before the version is updated.
\<close>

theorem update_changelog_without_notes_dir:
  "update_changelog None build_dir release_name changelog_index_template w = (Inl TypeError, w) \<and>
   add_release update_version local_repository package_name module_name release_name None
     changelog_index_template w = (Inl TypeError, w)"
  by (simp add: add_release_def update_changelog_def create_notes_file_def then_do_def
      lift_def join_opt_def)

lemma files_then_do:
  assumes "\<And>w. files (snd (m w)) = files w" and "\<And>x w. files (snd (f x w)) = files w"
  shows "files (snd (then_do m f w)) = files w"
proof (cases "m w")
  case (Pair r w1)
  with assms(1) [of w] have w1: "files w1 = files w" by simp
  show ?thesis
  proof (cases r)
    case (Inl e)
    with Pair w1 show ?thesis by (simp add: then_do_def)
  next
    case (Inr x)
    with Pair w1 assms(2) [of x w1] show ?thesis by (simp add: then_do_def)
  qed
qed

lemma files_lift: "files (snd (lift r w)) = files w"
  by (simp add: lift_def)

lemma files_print: "files (snd (print s w)) = files w"
  by (simp add: print_def)

lemma files_read_text: "files (snd (read_text path w)) = files w"
  by (simp add: read_text_def split: option.splits)

lemma files_yes: "files (snd (yes msg dflt w)) = files w"
proof (cases "yes_loop (msg @ '' ('' @ (if ''y'' = dflt then ''Y'' else ''y'') @ ''/'' @
                    (if ''n'' = dflt then ''N'' else ''n'') @ '') '') None (stdin w) (stdout w)")
  case (fields r inp out)
  then show ?thesis by (cases r) (simp_all add: yes_def Let_def)
qed

lemma files_no: "files (snd (no msg dflt w)) = files w"
  unfolding no_def by (rule files_then_do) (rule files_yes, rule files_lift)

lemma files_call: "files (snd (call args w)) = files w"
proof (cases "subprocess w args")
  case (Inl e)
  have "files (snd (then_do (print (bytes_repr out))
      (\<lambda>_. lift (Inl (CalledProcessError out))) w)) = files w" for out
    by (rule files_then_do) (rule files_print, rule files_lift)
  with Inl show ?thesis by (cases e) (simp_all add: call_def)
next
  case (Inr res)
  then show ?thesis by (simp add: call_def)
qed

lemma files_echocall: "files (snd (echocall args w)) = files w"
  unfolding echocall_def
proof (rule files_then_do)
  fix w show "files (snd (lift (str_join '' '' args) w)) = files w" by (rule files_lift)
next
  fix line w
  show "files (snd (then_do (print line) (\<lambda>_. call args) w)) = files w"
    by (rule files_then_do) (rule files_print, rule files_call)
qed

lemma files_local_var: "files (snd (local_var v w)) = files w"
  by (simp add: local_var_def lift_def)

lemma files_stage:
  "files (snd ((if declined then lift (Inl (SystemExit 1))
          else then_do (local_var changelog_file) (\<lambda>cf.
               then_do (echocall [PyList [''git'', ''add'', fpath, cf]]) (\<lambda>_. lift (Inr ())))) w)) =
        files w"
proof (cases declined)
  case True
  then show ?thesis by (simp add: files_lift)
next
  case False
  have "files (snd (then_do (local_var changelog_file) (\<lambda>cf.
               then_do (echocall [PyList [''git'', ''add'', fpath, cf]]) (\<lambda>_. lift (Inr ()))) w)) =
        files w"
  proof (rule files_then_do)
    fix w show "files (snd (local_var changelog_file w)) = files w" by (rule files_local_var)
  next
    fix cf w
    show "files (snd (then_do (echocall [PyList [''git'', ''add'', fpath, cf]])
            (\<lambda>_. lift (Inr ())) w)) = files w"
      by (rule files_then_do) (rule files_echocall, rule files_lift)
  qed
  with False show ?thesis by simp
qed

lemma files_confirm_and_stage:
  "files (snd (confirm_and_stage fpath changelog_file w)) = files w"
  unfolding confirm_and_stage_def
proof (rule files_then_do)
  fix w show "files (snd (read_text fpath w)) = files w" by (rule files_read_text)
next
  fix content w
  show "files (snd (then_do (print (join_lines ''\<newline>'' (take 20 (splitlines False content))))
      (\<lambda>_. then_do (no ''Does the full changelog look right?'' ''n'')
        (\<lambda>declined. if declined then lift (Inl (SystemExit 1))
          else then_do (local_var changelog_file) (\<lambda>cf.
               then_do (echocall [PyList [''git'', ''add'', fpath, cf]]) (\<lambda>_. lift (Inr ()))))) w)) =
      files w"
  proof (rule files_then_do)
    fix w show "files (snd (print (join_lines ''\<newline>'' (take 20 (splitlines False content))) w)) = files w"
      by (rule files_print)
  next
    fix u :: unit and w
    show "files (snd (then_do (no ''Does the full changelog look right?'' ''n'')
        (\<lambda>declined. if declined then lift (Inl (SystemExit 1))
          else then_do (local_var changelog_file) (\<lambda>cf.
               then_do (echocall [PyList [''git'', ''add'', fpath, cf]]) (\<lambda>_. lift (Inr ())))) w)) =
      files w"
      by (rule files_then_do) (rule files_no, rule files_stage)
  qed
qed

lemma create_notes_file_Some:
  "create_notes_file (Some src) build_dir release_name w =
     (case files w (join (join (cwd w) build_dir)
                      (join (join src ''changes'') ''template.rst.inc'')) of
        None \<Rightarrow> (Inl FileNotFoundError, w\<lparr>cwd := join (cwd w) build_dir\<rparr>)
      | Some t \<Rightarrow>
          (Inr (Some (relname2fname release_name),
                Some (join (join src ''changes'') (relname2fname release_name))),
           w\<lparr>cwd := join (cwd w) build_dir,
             files := (files w)(join (join (cwd w) build_dir)
                        (join (join src ''changes'') (relname2fname release_name)) \<mapsto> t)\<rparr>))"
  by (simp add: create_notes_file_def then_do_def chdir_def copy_def abspath_def lift_def
      Let_def template_path_neq_notes_path split: option.splits)


lemma update_changelog_read:
  assumes "files w (join (join (cwd w) build_dir)
                      (join (join src ''changes'') ''template.rst.inc'')) = Some t"
    and "files w (join (join (cwd w) build_dir) (join src ''changes.rst'')) = Some content"
  shows "update_changelog (Some src) build_dir release_name tmpl w =
     (let w2 = w\<lparr>cwd := join (cwd w) build_dir,
             files := (files w)(join (join (cwd w) build_dir)
                        (join (join src ''changes'') (relname2fname release_name)) \<mapsto> t)\<rparr>;
          lines = readlines content;
          title = ''Version '' @ short release_name
      in if length lines \<le> 3 then (Inl IndexError, w2)
         else if lines ! 3 = title @ ''\<newline>'' then
           print (''changes.rst not modified (it already contains '' @ title @ '')'') w2
         else
           then_do (lift (str_format tmpl
                       [(''title'', title),
                        (''underline'', replicate (length title) CHR ''=''),
                        (''fname'', relname2fname release_name)])) (\<lambda>this_version.
             then_do (write_text (join src ''changes.rst'')
                        (concat (take 3 lines @ splitlines True this_version @ drop 3 lines))) (\<lambda>_.
             confirm_and_stage (join src ''changes.rst'')
               (Some (join (join src ''changes'') (relname2fname release_name))))) w2)"
  using assms notes_path_neq_doc_path [of "join (cwd w) build_dir" src release_name]
  by (simp add: update_changelog_def then_do_def create_notes_file_Some join_opt_def lift_def
      read_lines_def abspath_def local_var_def Let_def)


lemma update_changelog_spliced:
  assumes tpl: "files w (join (join (cwd w) build_dir)
                      (join (join src ''changes'') ''template.rst.inc'')) = Some t"
    and doc: "files w (join (join (cwd w) build_dir) (join src ''changes.rst'')) = Some content"
    and len: "3 < length (readlines content)"
    and title: "readlines content ! 3 \<noteq> ''Version '' @ short release_name @ ''\<newline>''"
    and fmt: "str_format tmpl
                [(''title'', ''Version '' @ short release_name),
                 (''underline'', replicate (length (''Version '' @ short release_name)) CHR ''=''),
                 (''fname'', relname2fname release_name)] = Inr this_version"
  shows "files (snd (update_changelog (Some src) build_dir release_name tmpl w))
           (join (join (cwd w) build_dir) (join src ''changes.rst'')) =
         Some (concat (take 3 (readlines content) @ splitlines True this_version @
                       drop 3 (readlines content)))"
proof -
  let ?w2 = "w\<lparr>cwd := join (cwd w) build_dir,
             files := (files w)(join (join (cwd w) build_dir)
                        (join (join src ''changes'') (relname2fname release_name)) \<mapsto> t)\<rparr>"
  let ?new = "concat (take 3 (readlines content) @ splitlines True this_version @
                       drop 3 (readlines content))"
  let ?cf = "Some (join (join src ''changes'') (relname2fname release_name))"
  let ?w3 = "?w2\<lparr>files := (files ?w2)(join (join (cwd w) build_dir) (join src ''changes.rst'') \<mapsto> ?new)\<rparr>"
  have run: "update_changelog (Some src) build_dir release_name tmpl w =
      confirm_and_stage (join src ''changes.rst'') ?cf ?w3"
    using update_changelog_read [OF tpl doc, of release_name tmpl] len title fmt
    by (simp add: Let_def then_do_def lift_def write_text_def abspath_def)
  have "files (snd (confirm_and_stage (join src ''changes.rst'') ?cf ?w3)) = files ?w3"
    by (rule files_confirm_and_stage)
  with run show ?thesis by simp
qed












text \<open>
  Claim C6 fails as it is stated: the title \<open>Version 1.2\<close> has 11 characters, so the
  underline written below it has 11 characters, not 12.
\<close>

theorem add_release_1_2_counterexample:
  "map_option (\<lambda>c. (readlines c ! 3, readlines c ! 4, length (readlines c ! 4) - 1))
     (files (snd (update_changelog (Some ''doc'') ''/repo'' ''1.2''
        DEFAULT_CHANGELOG_INDEX_TEMPLATE example_repo)) ''/repo/doc/changes.rst'') =
   Some (''Version 1.2\<newline>'', ''===========\<newline>'', 11)"
  by code_simp

text \<open>
  Claim C6, amended. In a changelog with a header of three lines and a section of another
  version, release \<open>1.2\<close> gets a section just above that section: the title
  \<open>Version 1.2\<close>, an underline of 11 characters \<open>=\<close>, and the reference to
  \<open>version_1_2.rst.inc\<close>.
\<close>

theorem add_release_1_2_scenario:
  assumes "files w (join (join (cwd w) build_dir)
                      (join (join src ''changes'') ''template.rst.inc'')) = Some t"
    and "files w (join (join (cwd w) build_dir) (join src ''changes.rst'')) = Some content"
    and "readlines content = h0 # h1 # h2 # existing"
    and "existing \<noteq> []"
    and "hd existing \<noteq> ''Version 1.2\<newline>''"
  shows "files (snd (update_changelog (Some src) build_dir ''1.2''
                       DEFAULT_CHANGELOG_INDEX_TEMPLATE w))
           (join (join (cwd w) build_dir) (join src ''changes.rst'')) =
         Some (concat ([h0, h1, h2] @
                       [''Version 1.2\<newline>'',
                        replicate 11 CHR ''='' @ ''\<newline>'',
                        ''\<newline>'',
                        ''In development.\<newline>'',
                        ''\<newline>'',
                        ''.. include:: ./changes/version_1_2.rst.inc\<newline>'',
                        ''\<newline>'',
                        ''\<newline>''] @
                       existing))"
proof -
  let ?v = "''Version 1.2\<newline>===========\<newline>\<newline>In development.\<newline>\<newline>.. include:: ./changes/version_1_2.rst.inc\<newline>\<newline>\<newline>''"
  from assms(3,4) have len: "3 < length (readlines content)" by (cases existing) simp_all
  have s: "short ''1.2'' = ''1.2''" by code_simp
  from assms(3,4,5) have title: "readlines content ! 3 \<noteq> ''Version '' @ short ''1.2'' @ ''\<newline>''"
    unfolding s by (cases existing) simp_all
  have fmt: "str_format DEFAULT_CHANGELOG_INDEX_TEMPLATE
           [(''title'', ''Version '' @ short ''1.2''),
            (''underline'', replicate (length (''Version '' @ short ''1.2'')) CHR ''=''),
            (''fname'', relname2fname ''1.2'')] = Inr ?v" by code_simp
  have sl: "splitlines True ?v =
      [''Version 1.2\<newline>'', replicate 11 CHR ''='' @ ''\<newline>'', ''\<newline>'',
       ''In development.\<newline>'', ''\<newline>'',
       ''.. include:: ./changes/version_1_2.rst.inc\<newline>'', ''\<newline>'', ''\<newline>'']"
    by code_simp
  from update_changelog_spliced [OF assms(1,2) len title fmt]
  show ?thesis unfolding sl assms(3) by simp
qed

theorem add_release_1_2_scenario_witness:
  "files (snd (update_changelog (Some ''doc'') ''/repo'' ''1.2''
                 DEFAULT_CHANGELOG_INDEX_TEMPLATE example_repo)) ''/repo/doc/changes.rst'' =
   Some ''..\<newline>  Change log\<newline>..\<newline>Version 1.2\<newline>===========\<newline>\<newline>In development.\<newline>\<newline>.. include:: ./changes/version_1_2.rst.inc\<newline>\<newline>\<newline>Version 1.1\<newline>===========\<newline>\<newline>.. include:: ./changes/version_1_1.rst.inc\<newline>''"
proof -
  let ?c = "''..\<newline>  Change log\<newline>..\<newline>Version 1.1\<newline>===========\<newline>\<newline>.. include:: ./changes/version_1_1.rst.inc\<newline>''"
  let ?existing = "[''Version 1.1\<newline>'', ''===========\<newline>'', ''\<newline>'',
                    ''.. include:: ./changes/version_1_1.rst.inc\<newline>'']"
  have p: "join (join (cwd example_repo) ''/repo'') (join ''doc'' ''changes.rst'') =
      ''/repo/doc/changes.rst''" by code_simp
  have h1: "files example_repo (join (join (cwd example_repo) ''/repo'')
                      (join (join ''doc'' ''changes'') ''template.rst.inc'')) = Some ''New features\<newline>''"
    by code_simp
  have h2: "files example_repo (join (join (cwd example_repo) ''/repo'') (join ''doc'' ''changes.rst'')) =
      Some ?c" by code_simp
  have h3: "readlines ?c = ''..\<newline>'' # ''  Change log\<newline>'' # ''..\<newline>'' # ?existing"
    by code_simp
  have h4: "?existing \<noteq> []" by simp
  have h5: "hd ?existing \<noteq> ''Version 1.2\<newline>''" by simp
  have e: "concat ([''..\<newline>'', ''  Change log\<newline>'', ''..\<newline>''] @
                       [''Version 1.2\<newline>'',
                        replicate 11 CHR ''='' @ ''\<newline>'',
                        ''\<newline>'',
                        ''In development.\<newline>'',
                        ''\<newline>'',
                        ''.. include:: ./changes/version_1_2.rst.inc\<newline>'',
                        ''\<newline>'',
                        ''\<newline>''] @
                       ?existing) =
      ''..\<newline>  Change log\<newline>..\<newline>Version 1.2\<newline>===========\<newline>\<newline>In development.\<newline>\<newline>.. include:: ./changes/version_1_2.rst.inc\<newline>\<newline>\<newline>Version 1.1\<newline>===========\<newline>\<newline>.. include:: ./changes/version_1_1.rst.inc\<newline>''"
    by code_simp
  from add_release_1_2_scenario [OF h1 h2 h3 h4 h5]
  show ?thesis unfolding p e .
qed


end
